theory Spec2Isabelle
  imports Main "HOL-Library.Word" "HOL-Library.AList" "HOL-Library.Char_ord"
    "HOL-Library.List_Lexorder"
begin

section \<open>The files service of src/files/files.cpp\<close>

text \<open>
  The service keeps a namespace \<open>paths\<close> from virtual names to real paths
  (\<open>hashmap<string, string>\<close>), resolves virtual paths against it and serves
  \<open>browse\<close>, \<open>read\<close> and \<open>download\<close> requests. The operating system is a record
  of the calls the code makes; the descriptors that are open are threaded through the
  handlers as a set.
\<close>

subsection \<open>String and path helpers\<close>

text \<open>
  Modelled from the spec: the stout helpers \<open>strings::remove\<close>, \<open>strings::split\<close>,
  \<open>strings::startsWith\<close> and \<open>path::join\<close> are called by files.cpp and defined
  outside it. \<open>strings::remove(s, "/", SUFFIX)\<close> strips one trailing separator,
  \<open>strings::remove(s, "/", PREFIX)\<close> one leading separator; \<open>strings::split\<close>
  cuts at every separator and keeps empty segments; \<open>path::join\<close> of two paths puts
  exactly one separator between them, and of a segment list folds that from the left.
\<close>

definition remove_suffix :: "string \<Rightarrow> string" where
  "remove_suffix s = (if s \<noteq> [] \<and> last s = CHR ''/'' then butlast s else s)"

definition remove_prefix :: "string \<Rightarrow> string" where
  "remove_prefix s = (case s of [] \<Rightarrow> [] | c # cs \<Rightarrow> if c = CHR ''/'' then cs else s)"

fun split :: "string \<Rightarrow> string list" where
  "split [] = [[]]"
| "split (c # cs) =
     (if c = CHR ''/'' then [] # split cs
      else (case split cs of [] \<Rightarrow> [[c]] | t # ts \<Rightarrow> (c # t) # ts))"

definition join :: "string \<Rightarrow> string \<Rightarrow> string" where
  "join path1 path2 = remove_suffix path1 @ ''/'' @ remove_prefix path2"

definition join_tokens :: "string list \<Rightarrow> string" where
  "join_tokens paths = (case paths of [] \<Rightarrow> [] | p # ps \<Rightarrow> foldl join p ps)"

definition startsWith :: "string \<Rightarrow> string \<Rightarrow> bool" where
  "startsWith s pre = (take (length pre) s = pre)"

definition quoted :: "string \<Rightarrow> string" where
  "quoted s = [CHR 0x27] @ s @ [CHR 0x27]"

subsection \<open>Results and the operating system\<close>

text \<open>\<open>Result<T>\<close> of stout: a value, nothing, or an error message.\<close>

datatype 'a result = RSome 'a | RNone | RError string

type_synonym fd = int
type_synonym off_t = "64 word"
type_synonym ssize_t = "64 word"

record stat =
  st_isdir :: bool
  st_size :: off_t

text \<open>
  The calls into the operating system and into libprocess. A \<open>Try<T>\<close> is
  \<open>string + T\<close> with the error message on the left. \<open>os_lseek_end\<close> and
  \<open>os_lseek_set\<close> return \<open>-1\<close> on failure as \<open>lseek\<close> does, and
  \<open>os_strerror\<close> is the text of \<open>strerror(errno)\<close> after a failed call.
  \<open>io_read fd pos\<close> is what the file delivers from position \<open>pos\<close> on.
\<close>

record os =
  os_realpath :: "string \<Rightarrow> string + string"
  os_access :: "string \<Rightarrow> string + bool"
  os_isdir :: "string \<Rightarrow> bool"
  os_ls :: "string \<Rightarrow> string list"
  os_stat :: "string \<Rightarrow> stat option"
  os_open :: "string \<Rightarrow> string + fd"
  os_lseek_end :: "fd \<Rightarrow> off_t"
  os_lseek_set :: "fd \<Rightarrow> off_t \<Rightarrow> off_t"
  os_strerror :: "string"
  os_nonblock :: "fd \<Rightarrow> string + unit"
  io_read :: "fd \<Rightarrow> off_t \<Rightarrow> string + string"
  os_basename :: "string \<Rightarrow> string + string"
  page_size :: "64 word"
  mime_types :: "string \<rightharpoonup> string"

subsection \<open>The namespace: attach and detach\<close>

type_synonym namespace = "string \<rightharpoonup> string"

definition attach :: "os \<Rightarrow> namespace \<Rightarrow> string \<Rightarrow> string \<Rightarrow> string + namespace" where
  "attach os paths path name =
     (case os_realpath os path of
        Inl e \<Rightarrow> Inl (''Failed to get realpath of '' @ quoted path @ '': '' @ e)
      | Inr result \<Rightarrow>
          (case os_access os result of
             Inl e \<Rightarrow> Inl (''Failed to access '' @ quoted path @ '': '' @ e)
           | Inr ok \<Rightarrow>
               if \<not> ok then Inl (''Failed to access '' @ quoted path @ '': Access denied'')
               else Inr (paths(remove_suffix name \<mapsto> result))))"

definition detach :: "namespace \<Rightarrow> string \<Rightarrow> namespace" where
  "detach paths name = paths(name := None)"

subsection \<open>The resolver\<close>

text \<open>
  Lines 404 to 432: what \<open>resolve\<close> returns once a prefix is found in the namespace,
  from the stored target and the suffix collected so far.
\<close>

definition resolve_target :: "os \<Rightarrow> string \<Rightarrow> string \<Rightarrow> string result" where
  "resolve_target os target suffix =
     (if os_isdir os target then
        (let path = join target suffix in
         case os_realpath os path of
           Inl e \<Rightarrow>
             RError (''Failed to determine canonical path of '' @ quoted path @ '': '' @ e)
         | Inr realpath \<Rightarrow>
             if \<not> startsWith realpath target then RError (quoted path @ '' is inaccessible'')
             else RSome realpath)
      else if suffix \<noteq> [] then RNone
      else RSome target)"

text \<open>The loop of \<open>resolve\<close>: \<open>tokens\<close> shrinks from the back, \<open>suffix\<close> grows.\<close>

function resolve_loop :: "os \<Rightarrow> namespace \<Rightarrow> string list \<Rightarrow> string \<Rightarrow> string result" where
  "resolve_loop os paths tokens suffix =
     (if tokens = [] then RNone
      else
        (let prefix = join_tokens tokens in
         case paths prefix of
           None \<Rightarrow>
             resolve_loop os paths (butlast tokens)
               (if suffix = [] then last tokens else join (last tokens) suffix)
         | Some target \<Rightarrow> resolve_target os target suffix))"
  by pat_completeness auto
termination
  by (relation "measure (\<lambda>(os, paths, tokens, suffix). length tokens)") auto

declare resolve_loop.simps [simp del]

definition resolve :: "os \<Rightarrow> namespace \<Rightarrow> string \<Rightarrow> string result" where
  "resolve os paths path = resolve_loop os paths (split (remove_suffix path)) []"

subsection \<open>Requests and responses\<close>

record request =
  query :: "string \<rightharpoonup> string"

text \<open>
  Modelled from the spec: \<open>jsonFileInfo\<close> is declared in files.hpp, outside src/; a
  file descriptor of a listing carries the virtual child path and what \<open>stat\<close>
  reported (directory flag and size).
\<close>

type_synonym file_info = "string \<times> stat"

definition jsonFileInfo :: "string \<Rightarrow> stat \<Rightarrow> file_info" where
  "jsonFileInfo path s = (path, s)"

datatype json =
    JRead off_t string
  | JListing "file_info list"

text \<open>
  The responses of libprocess the handlers build. \<open>OK\<close> carries a JSON body and the
  optional \<open>jsonp\<close> callback, \<open>OK_PATH\<close> the path of the file to send and the headers.
\<close>

datatype response =
    BadRequest string
  | InternalServerError string
  | NotFound
  | OK json "string option"
  | OK_PATH string "(string \<times> string) list"

fun status :: "response \<Rightarrow> nat" where
  "status (BadRequest m) = 400"
| "status (InternalServerError m) = 500"
| "status NotFound = 404"
| "status (OK j c) = 200"
| "status (OK_PATH p h) = 200"

text \<open>
  What becomes of the \<open>Future<Response>\<close> of \<open>read\<close>: it is completed with a
  response, it fails (the continuation \<open>_read\<close> of a failed \<open>io::read\<close> never runs),
  or the handler leaves by the exception of \<open>new char[length]\<close> before it returns a
  future; \<open>Throws\<close> keeps the length that was asked for.
\<close>

datatype outcome = Returns response | Fails string | Throws ssize_t

text \<open>The status of the response, when there is one.\<close>

fun outcome_status :: "outcome \<Rightarrow> nat option" where
  "outcome_status (Returns r) = Some (status r)"
| "outcome_status (Fails e) = None"
| "outcome_status (Throws n) = None"

definition expecting_path :: string where
  "expecting_path = ''Expecting '' @ quoted ''path=value'' @ '' in query.'' @ [CHR 0x0A]"

subsection \<open>numify\<close>

text \<open>
  Modelled from the spec: \<open>numify\<close> of stout (a \<open>boost::lexical_cast\<close>) is defined
  outside src/. The spec takes \<open>offset\<close> and \<open>length\<close> as integers and answers a
  parse failure with a bad request: an optional sign, then decimal digits, within the
  range of the 64-bit signed target type.
\<close>

definition is_digit :: "char \<Rightarrow> bool" where
  "is_digit c = (48 \<le> (of_char c :: int) \<and> (of_char c :: int) \<le> 57)"

definition digits_value :: "string \<Rightarrow> int" where
  "digits_value ds = foldl (\<lambda>n c. 10 * n + ((of_char c :: int) - 48)) 0 ds"

definition numify :: "string \<Rightarrow> string + 64 word" where
  "numify s =
     (let neg = (s \<noteq> [] \<and> hd s = CHR ''-'');
          ds = (if s \<noteq> [] \<and> (hd s = CHR ''-'' \<or> hd s = CHR ''+'') then tl s else s);
          v = (if neg then - digits_value ds else digits_value ds)
      in if ds = [] \<or> \<not> list_all is_digit ds \<or> v < - (2 ^ 63) \<or> 2 ^ 63 \<le> v
         then Inl (''Failed to convert '' @ quoted s @ '' to number'')
         else Inr (word_of_int v))"

subsection \<open>browse\<close>

text \<open>
  \<open>files\<close> is a \<open>map<string, JSON::Object>\<close> keyed by the real path of each child:
  an assignment to a key that is present overwrites it, and the listing follows the
  order of the keys.
\<close>

definition browse :: "os \<Rightarrow> namespace \<Rightarrow> request \<Rightarrow> response" where
  "browse os paths request =
     (case query request ''path'' of
        None \<Rightarrow> BadRequest expecting_path
      | Some path \<Rightarrow>
          if path = [] then BadRequest expecting_path
          else
            (case resolve os paths path of
               RError e \<Rightarrow> InternalServerError (e @ ''.'' @ [CHR 0x0A])
             | RNone \<Rightarrow> NotFound
             | RSome resolvedPath \<Rightarrow>
                 (let files =
                    fold (\<lambda>filename files.
                            let fullPath = join resolvedPath filename in
                            case os_stat os fullPath of
                              None \<Rightarrow> files
                            | Some s \<Rightarrow>
                                AList.update fullPath (jsonFileInfo (join path filename) s) files)
                         (os_ls os resolvedPath) []
                  in OK (JListing (map snd (sort_key fst files))) (query request ''jsonp''))))"

subsection \<open>read\<close>

text \<open>\<open>_read\<close>, the continuation of a completed \<open>io::read\<close>: it builds the object and
  closes the descriptor.\<close>

definition read_then ::
  "fd \<Rightarrow> string \<Rightarrow> off_t \<Rightarrow> string option \<Rightarrow> fd set \<Rightarrow> outcome \<times> fd set" where
  "read_then fd data offset jsonp fds = (Returns (OK (JRead offset data) jsonp), fds - {fd})"

text \<open>\<open>std::min\<close> on two signed 64-bit values.\<close>

definition smin :: "64 word \<Rightarrow> 64 word \<Rightarrow> 64 word" where
  "smin a b = (if sint b < sint a then b else a)"

text \<open>
  Lines 256 to 314, with the descriptor open. \<open>size - offset\<close> and the product with
  16 wrap around at 64 bits. \<open>new char[length]\<close> with a negative length asks for at
  least \<open>2 ^ 63\<close> bytes and leaves by an exception, before \<open>io::read\<close> is called;
  \<open>io::read\<close> delivers at most the \<open>static_cast<size_t>(length)\<close> bytes it is asked
  for.
\<close>

definition read_fd ::
  "os \<Rightarrow> fd set \<Rightarrow> string \<Rightarrow> fd \<Rightarrow> off_t \<Rightarrow> ssize_t \<Rightarrow> string option \<Rightarrow> outcome \<times> fd set" where
  "read_fd os fds resolvedPath fd offset0 length0 jsonp =
     (let size = os_lseek_end os fd in
      if size = - 1 then
        (Returns (InternalServerError
           (''Failed to open file at '' @ quoted resolvedPath @ '': '' @ os_strerror os
            @ ''.'' @ [CHR 0x0A])), fds - {fd})
      else
        (let offset = (if offset0 = - 1 then size else offset0);
             len1 = (if length0 = - 1 then size - offset else length0);
             len = smin len1 (page_size os * 16)
         in if sint size \<le> sint offset then
              (Returns (OK (JRead size []) jsonp), fds - {fd})
            else if os_lseek_set os fd offset = - 1 then
              (Returns (InternalServerError
                 (''Failed to seek file at '' @ quoted resolvedPath @ '': '' @ os_strerror os)),
               fds - {fd})
            else
              (case os_nonblock os fd of
                 Inl e \<Rightarrow>
                   (Returns (InternalServerError
                      (''Failed to set file descriptor nonblocking: '' @ e)), fds)
               | Inr u \<Rightarrow>
                   if sint len < 0 then (Throws len, fds)
                   else
                     (case io_read os fd offset of
                        Inl e \<Rightarrow> (Fails e, fds)
                      | Inr bytes \<Rightarrow>
                          read_then fd (take (unat len) bytes) offset jsonp fds))))"

text \<open>Lines 232 to 254: resolve the path, refuse a directory, open the file.\<close>

definition read_path ::
  "os \<Rightarrow> fd set \<Rightarrow> namespace \<Rightarrow> string \<Rightarrow> off_t \<Rightarrow> ssize_t \<Rightarrow> string option
     \<Rightarrow> outcome \<times> fd set" where
  "read_path os fds paths path offset len jsonp =
     (case resolve os paths path of
        RError e \<Rightarrow> (Returns (BadRequest (e @ ''.'' @ [CHR 0x0A])), fds)
      | RNone \<Rightarrow> (Returns NotFound, fds)
      | RSome resolvedPath \<Rightarrow>
          if os_isdir os resolvedPath then
            (Returns (BadRequest (''Cannot read a directory.'' @ [CHR 0x0A])), fds)
          else
            (case os_open os resolvedPath of
               Inl e \<Rightarrow>
                 (Returns (InternalServerError
                    (''Failed to open file at '' @ quoted resolvedPath @ '': '' @ e
                     @ ''.'' @ [CHR 0x0A])), fds)
             | Inr fd \<Rightarrow> read_fd os (insert fd fds) resolvedPath fd offset len jsonp))"

text \<open>A numeric query parameter: \<open>-1\<close> when it is absent, else what \<open>numify\<close> gives.\<close>

definition param :: "request \<Rightarrow> string \<Rightarrow> string + 64 word" where
  "param request key = (case query request key of None \<Rightarrow> Inr (- 1) | Some s \<Rightarrow> numify s)"

definition read :: "os \<Rightarrow> fd set \<Rightarrow> namespace \<Rightarrow> request \<Rightarrow> outcome \<times> fd set" where
  "read os fds paths request =
     (case query request ''path'' of
        None \<Rightarrow> (Returns (BadRequest expecting_path), fds)
      | Some path \<Rightarrow>
          if path = [] then (Returns (BadRequest expecting_path), fds)
          else
            (case param request ''offset'' of
               Inl e \<Rightarrow>
                 (Returns (BadRequest (''Failed to parse offset: '' @ e @ ''.'' @ [CHR 0x0A])),
                  fds)
             | Inr offset \<Rightarrow>
                 (case param request ''length'' of
                    Inl e \<Rightarrow>
                      (Returns (BadRequest
                         (''Failed to parse length: '' @ e @ ''.'' @ [CHR 0x0A])), fds)
                  | Inr len \<Rightarrow>
                      read_path os fds paths path offset len (query request ''jsonp''))))"

subsection \<open>download\<close>

text \<open>The extension from the last dot of the base name on, when there is a dot.\<close>

definition extension :: "string \<Rightarrow> string option" where
  "extension basename =
     (if CHR ''.'' \<in> set basename
      then Some (CHR ''.'' # rev (takeWhile (\<lambda>c. c \<noteq> CHR ''.'') (rev basename)))
      else None)"

definition content_type :: "os \<Rightarrow> string \<Rightarrow> string" where
  "content_type os basename =
     (case extension basename of
        None \<Rightarrow> ''application/octet-stream''
      | Some ext \<Rightarrow>
          (case mime_types os ext of
             None \<Rightarrow> ''application/octet-stream''
           | Some t \<Rightarrow> t))"

definition download :: "os \<Rightarrow> namespace \<Rightarrow> request \<Rightarrow> response" where
  "download os paths request =
     (case query request ''path'' of
        None \<Rightarrow> BadRequest expecting_path
      | Some path \<Rightarrow>
          if path = [] then BadRequest expecting_path
          else
            (case resolve os paths path of
               RError e \<Rightarrow> BadRequest (e @ ''.'' @ [CHR 0x0A])
             | RNone \<Rightarrow> NotFound
             | RSome resolvedPath \<Rightarrow>
                 if os_isdir os resolvedPath then
                   BadRequest (''Cannot download a directory.'' @ [CHR 0x0A])
                 else
                   (case os_basename os resolvedPath of
                      Inl e \<Rightarrow> InternalServerError (e @ ''.'' @ [CHR 0x0A])
                    | Inr basename \<Rightarrow>
                        OK_PATH resolvedPath
                          [(''Content-Type'', content_type os basename),
                           (''Content-Disposition'', ''attachment; filename='' @ basename)])))"

subsection \<open>Notions the properties are stated with\<close>

text \<open>
  The suffix \<open>resolve\<close> has collected when the segments \<open>ds\<close> have been moved off
  the back of \<open>tokens\<close>, last segment first.
\<close>

definition suffix_of :: "string list \<Rightarrow> string" where
  "suffix_of ds = foldr (\<lambda>tok suffix. if suffix = [] then tok else join tok suffix) ds []"

text \<open>A path lies in a directory: it is the directory, or continues it after a separator.\<close>

definition path_prefix :: "string \<Rightarrow> string \<Rightarrow> bool" where
  "path_prefix target p = (p = target \<or> startsWith p (remove_suffix target @ ''/''))"

text \<open>No two separators side by side.\<close>

fun single_slashes :: "string \<Rightarrow> bool" where
  "single_slashes (c # d # cs) = (\<not> (c = CHR ''/'' \<and> d = CHR ''/'') \<and> single_slashes (d # cs))"
| "single_slashes cs = True"

subsection \<open>A sample host\<close>

text \<open>
  A host with the directories \<open>dirs\<close> and the symbolic links \<open>links\<close> (path and
  canonical target): every path exists and is readable, every file holds the twenty
  bytes \<open>0123456789abcdefghij\<close>, \<open>open\<close> hands out descriptor 3, and a page has
  4096 bytes.
\<close>

definition sample_os :: "string list \<Rightarrow> (string \<times> string) list \<Rightarrow> os" where
  "sample_os dirs links =
     \<lparr> os_realpath = (\<lambda>p. case map_of links (remove_suffix p) of
                              None \<Rightarrow> Inr (if p = ''/'' then p else remove_suffix p)
                            | Some t \<Rightarrow> Inr t),
       os_access = (\<lambda>p. Inr True),
       os_isdir = (\<lambda>p. p \<in> set dirs),
       os_ls = (\<lambda>p. []),
       os_stat = (\<lambda>p. Some \<lparr> st_isdir = (p \<in> set dirs), st_size = 20 \<rparr>),
       os_open = (\<lambda>p. Inr 3),
       os_lseek_end = (\<lambda>fd. 20),
       os_lseek_set = (\<lambda>fd pos. if 0 \<le> sint pos then pos else - 1),
       os_strerror = ''Invalid argument'',
       os_nonblock = (\<lambda>fd. Inr ()),
       io_read = (\<lambda>fd pos. Inr (drop (unat pos) ''0123456789abcdefghij'')),
       os_basename = (\<lambda>p. Inr (rev (takeWhile (\<lambda>c. c \<noteq> CHR ''/'') (rev p)))),
       page_size = 4096,
       mime_types = [''.txt'' \<mapsto> ''text/plain''] \<rparr>"

text \<open>The directory \<open>/tmp/x\<close> with its file \<open>f.txt\<close>, attached as \<open>sandbox\<close>.\<close>

definition sandbox_os :: os where
  "sandbox_os = sample_os [''/tmp/x''] []"

definition sandbox :: namespace where
  "sandbox = [''sandbox'' \<mapsto> ''/tmp/x'']"

text \<open>A request with the given query parameters.\<close>

definition get :: "(string \<times> string) list \<Rightarrow> request" where
  "get params = \<lparr> query = map_of params \<rparr>"

section \<open>Properties of the resolver\<close>

text \<open>
  While the joined segments are no key of the namespace, the loop moves the last
  segment to the front of the suffix and goes on with the shorter prefix.
\<close>

lemma resolve_loop_skip:
  "(\<forall>j. 0 < j \<and> j \<le> length ds \<longrightarrow> paths (join_tokens (ts @ take j ds)) = None) \<Longrightarrow>
   resolve_loop os paths (ts @ ds) sfx =
   resolve_loop os paths ts
     (foldr (\<lambda>tok suffix. if suffix = [] then tok else join tok suffix) ds sfx)"
proof (induction ds arbitrary: sfx rule: rev_induct)
  case Nil
  then show ?case by simp
next
  case (snoc d ds)
  let ?push = "\<lambda>tok suffix. if suffix = [] then tok else join tok suffix"
  have absent: "paths (join_tokens (ts @ ds @ [d])) = None"
    using snoc.prems [rule_format, of "Suc (length ds)"] by simp
  have shorter: "\<forall>j. 0 < j \<and> j \<le> length ds \<longrightarrow> paths (join_tokens (ts @ take j ds)) = None"
  proof (intro allI impI)
    fix j assume j: "0 < j \<and> j \<le> length ds"
    then show "paths (join_tokens (ts @ take j ds)) = None"
      using snoc.prems [rule_format, of j] by simp
  qed
  have "resolve_loop os paths (ts @ ds @ [d]) sfx
        = resolve_loop os paths (ts @ ds) (?push d sfx)"
    using absent
    by (subst resolve_loop.simps) (simp add: butlast_append)
  also have "\<dots> = resolve_loop os paths ts (foldr ?push ds (?push d sfx))"
    by (rule snoc.IH [OF shorter])
  finally show ?case by simp
qed

text \<open>At a prefix that is a key, the loop ends with what the target gives.\<close>

lemma resolve_loop_found:
  "ts \<noteq> [] \<Longrightarrow> paths (join_tokens ts) = Some target \<Longrightarrow>
   resolve_loop os paths ts sfx = resolve_target os target sfx"
  by (subst resolve_loop.simps) simp

text \<open>So the longest prefix that is a key decides the result.\<close>

lemma resolve_longest:
  assumes "split (remove_suffix path) = ts @ ds" and "ts \<noteq> []"
    and "paths (join_tokens ts) = Some target"
    and "\<forall>j. 0 < j \<and> j \<le> length ds \<longrightarrow> paths (join_tokens (ts @ take j ds)) = None"
  shows "resolve os paths path = resolve_target os target (suffix_of ds)"
  using assms
  by (simp add: resolve_def resolve_loop_skip resolve_loop_found suffix_of_def)


text \<open>The path helpers, unfolded together when a concrete path is evaluated.\<close>

lemmas path_defs = join_tokens_def join_def remove_suffix_def remove_prefix_def startsWith_def

text \<open>
  C6. Longest-prefix match: \<open>resolve\<close> tries the joined segments from the longest
  prefix to the shortest, and the first one found in the namespace, the longest, decides
  the result. In a namespace that holds both \<open>/a\<close> and \<open>/a/b\<close> (and not the full
  path itself), \<open>/a/b/x\<close> is resolved from the target stored under \<open>/a/b\<close> with
  the suffix \<open>x\<close>; the target of \<open>/a\<close> plays no part.
\<close>

theorem longest_prefix_wins:
  "(split (remove_suffix path) = ts @ ds \<and> ts \<noteq> [] \<and> paths (join_tokens ts) = Some target \<and>
      (\<forall>j. 0 < j \<and> j \<le> length ds \<longrightarrow> paths (join_tokens (ts @ take j ds)) = None)
      \<longrightarrow> resolve os paths path = resolve_target os target (suffix_of ds))
   \<and> (paths ''/a'' = Some ta \<and> paths ''/a/b'' = Some tab \<and> paths ''/a/b/x'' = None
      \<longrightarrow> resolve os paths ''/a/b/x'' = resolve_target os tab ''x'')"
proof (intro conjI impI)
  assume "split (remove_suffix path) = ts @ ds \<and> ts \<noteq> [] \<and> paths (join_tokens ts) = Some target \<and>
      (\<forall>j. 0 < j \<and> j \<le> length ds \<longrightarrow> paths (join_tokens (ts @ take j ds)) = None)"
  then show "resolve os paths path = resolve_target os target (suffix_of ds)"
    by (simp add: resolve_longest)
next
  assume a: "paths ''/a'' = Some ta \<and> paths ''/a/b'' = Some tab \<and> paths ''/a/b/x'' = None"
  have sp: "split (remove_suffix ''/a/b/x'') = [[], ''a'', ''b''] @ [''x'']"
    by (simp add: remove_suffix_def)
  have key: "paths (join_tokens [[], ''a'', ''b'']) = Some tab"
    using a by (simp add: path_defs)
  have longer: "\<forall>j. 0 < j \<and> j \<le> length [''x''] \<longrightarrow>
      paths (join_tokens ([[], ''a'', ''b''] @ take j [''x''])) = None"
  proof (intro allI impI)
    fix j :: nat assume "0 < j \<and> j \<le> length [''x'']"
    then have "j = 1" by simp
    then show "paths (join_tokens ([[], ''a'', ''b''] @ take j [''x''])) = None"
      using a by (simp add: path_defs)
  qed
  have "resolve os paths ''/a/b/x'' = resolve_target os tab (suffix_of [''x''])"
    by (rule resolve_longest [OF sp _ key longer]) simp
  then show "resolve os paths ''/a/b/x'' = resolve_target os tab ''x''"
    by (simp add: suffix_of_def)
qed

theorem longest_prefix_wins_witness:
  "[''/a'' \<mapsto> ''/x'', ''/a/b'' \<mapsto> ''/y''] ''/a'' = Some ''/x''
   \<and> [''/a'' \<mapsto> ''/x'', ''/a/b'' \<mapsto> ''/y''] ''/a/b'' = Some ''/y''
   \<and> [''/a'' \<mapsto> ''/x'', ''/a/b'' \<mapsto> ''/y''] ''/a/b/x'' = None
   \<and> resolve (sample_os [''/x'', ''/y''] []) [''/a'' \<mapsto> ''/x'', ''/a/b'' \<mapsto> ''/y''] ''/a/b/x''
       = RSome ''/y/x''"
  using longest_prefix_wins [where paths = "[''/a'' \<mapsto> ''/x'', ''/a/b'' \<mapsto> ''/y'']"
      and ta = "''/x''" and tab = "''/y''" and os = "sample_os [''/x'', ''/y''] []"]
  by (simp add: resolve_target_def sample_os_def path_defs)

text \<open>
  C7. When the longest prefix in the namespace maps to a target that is not a
  directory, \<open>resolve\<close> returns nothing (not an error) if the suffix left over is not
  empty, and the target itself if it is empty.
\<close>

theorem file_target_suffix:
  assumes "split (remove_suffix path) = ts @ ds" and "ts \<noteq> []"
    and "paths (join_tokens ts) = Some target"
    and "\<forall>j. 0 < j \<and> j \<le> length ds \<longrightarrow> paths (join_tokens (ts @ take j ds)) = None"
    and "\<not> os_isdir os target"
  shows "resolve os paths path = (if suffix_of ds \<noteq> [] then RNone else RSome target)"
  using assms by (simp add: resolve_longest resolve_target_def)

theorem file_target_suffix_witness:
  "\<not> os_isdir (sample_os [] []) ''/etc/hosts''
   \<and> suffix_of [''x''] \<noteq> [] \<and> suffix_of [] = []
   \<and> resolve (sample_os [] []) [''f'' \<mapsto> ''/etc/hosts''] ''f/x'' = RNone
   \<and> resolve (sample_os [] []) [''f'' \<mapsto> ''/etc/hosts''] ''f'' = RSome ''/etc/hosts''"
proof -
  let ?os = "sample_os [] []" and ?ns = "[''f'' \<mapsto> ''/etc/hosts'']"
  have nd: "\<not> os_isdir ?os ''/etc/hosts''" by (simp add: sample_os_def)
  have key: "?ns (join_tokens [''f'']) = Some ''/etc/hosts''" by (simp add: path_defs)
  have l1: "\<forall>j. 0 < j \<and> j \<le> length [''x''] \<longrightarrow> ?ns (join_tokens ([''f''] @ take j [''x''])) = None"
  proof (intro allI impI)
    fix j :: nat assume "0 < j \<and> j \<le> length [''x'']"
    then have "j = 1" by simp
    then show "?ns (join_tokens ([''f''] @ take j [''x''])) = None" by (simp add: path_defs)
  qed
  have l0: "\<forall>j. 0 < j \<and> j \<le> length ([] :: string list) \<longrightarrow>
      ?ns (join_tokens ([''f''] @ take j [])) = None"
    by simp
  have ne: "[''f''] \<noteq> []" by simp
  have s1: "split (remove_suffix ''f/x'') = [''f''] @ [''x'']" by (simp add: remove_suffix_def)
  have s0: "split (remove_suffix ''f'') = [''f''] @ []" by (simp add: remove_suffix_def)
  have x1: "suffix_of [''x''] \<noteq> []" by (simp add: suffix_of_def)
  have x0: "suffix_of [] = []" by (simp add: suffix_of_def)
  have "resolve ?os ?ns ''f/x'' = (if suffix_of [''x''] \<noteq> [] then RNone else RSome ''/etc/hosts'')"
    by (rule file_target_suffix [OF s1 ne key l1 nd])
  then have r1: "resolve ?os ?ns ''f/x'' = RNone"
    by (simp only: x1 simp_thms if_True if_False)
  have "resolve ?os ?ns ''f'' = (if suffix_of [] \<noteq> [] then RNone else RSome ''/etc/hosts'')"
    by (rule file_target_suffix [OF s0 ne key l0 nd])
  then have r0: "resolve ?os ?ns ''f'' = RSome ''/etc/hosts''"
    by (simp only: x0 simp_thms if_True if_False)
  show ?thesis by (intro conjI nd x1 x0 r1 r0)
qed

text \<open>
  C1. Escape prevention asks that a path resolved under an attached directory lies in
  that directory, as a path and not only as a string. The check of \<open>resolve\<close> is
  \<open>strings::startsWith\<close>: with \<open>/a/b\<close> attached as \<open>sandbox\<close> and a link
  \<open>/a/b/link\<close> to the sibling \<open>/a/bfoo\<close>, \<open>resolve\<close> returns \<open>/a/bfoo\<close>,
  which is outside \<open>/a/b\<close>.
\<close>

theorem resolve_escapes_to_sibling:
  "resolve (sample_os [''/a/b''] [(''/a/b/link'', ''/a/bfoo'')]) [''sandbox'' \<mapsto> ''/a/b'']
     ''sandbox/link'' = RSome ''/a/bfoo''
   \<and> os_isdir (sample_os [''/a/b''] [(''/a/b/link'', ''/a/bfoo'')]) ''/a/b''
   \<and> \<not> path_prefix ''/a/b'' ''/a/bfoo''"
  by (simp add: resolve_def resolve_loop.simps resolve_target_def sample_os_def path_defs
      path_prefix_def)

text \<open>
  What the check of line 421 does give: the target is a prefix of the result as a
  string.
\<close>

lemma resolve_target_startsWith:
  "os_isdir os target \<Longrightarrow> resolve_target os target suffix = RSome p \<Longrightarrow> startsWith p target"
  by (auto simp: resolve_target_def Let_def split: sum.splits if_splits)

subsection \<open>The sample host at work\<close>

text \<open>
  The definitions unfolded together when a run on the sample host is evaluated.
\<close>

lemmas sample_defs = sandbox_os_def sandbox_def sample_os_def get_def

lemmas resolve_defs = resolve_def resolve_loop.simps resolve_target_def

lemmas read_defs = read_def read_path_def read_fd_def read_then_def param_def smin_def

lemma sandbox_file: "resolve sandbox_os sandbox ''sandbox/f.txt'' = RSome ''/tmp/x/f.txt''"
  by (simp add: resolve_defs sample_defs path_defs)

lemma sandbox_dir: "resolve sandbox_os sandbox ''sandbox'' = RSome ''/tmp/x''"
  by (simp add: resolve_defs sample_defs path_defs)

text \<open>
  A link that leaves the directory for an unrelated path is refused.
\<close>

lemma sandbox_outward:
  "resolve (sample_os [''/a/b''] [(''/a/b/out'', ''/etc/passwd'')]) [''sandbox'' \<mapsto> ''/a/b'']
     ''sandbox/out'' = RError (quoted ''/a/b/out'' @ '' is inaccessible'')"
  by (simp add: resolve_defs sample_defs path_defs)

lemma numify_small:
  "numify ''0'' = Inr 0" "numify ''3'' = Inr 3" "numify ''18'' = Inr 18"
  "numify ''-1'' = Inr (- 1)" "numify ''-2'' = Inr (- 2)" "numify ''-5'' = Inr (- 5)"
  "numify ''-7'' = Inr (- 7)" "numify ''20'' = Inr 20"
  by (simp_all add: numify_def digits_value_def is_digit_def)

subsection \<open>Attach, then resolve\<close>

text \<open>
  Splitting a name at its separators and joining the segments again gives the name
  back when no two separators stand side by side.
\<close>

lemma remove_suffix_Cons:
  "c \<noteq> CHR ''/'' \<or> t \<noteq> [] \<Longrightarrow> remove_suffix (c # t) = c # remove_suffix t"
  by (auto simp: remove_suffix_def)

lemma join_Cons: "c \<noteq> CHR ''/'' \<or> t \<noteq> [] \<Longrightarrow> join (c # t) x = c # join t x"
  by (simp add: join_def remove_suffix_Cons)

lemma join_not_Nil: "join t x \<noteq> []"
  by (simp add: join_def)

lemma foldl_join_Cons:
  "c \<noteq> CHR ''/'' \<or> t \<noteq> [] \<or> ts = [] \<Longrightarrow> foldl join (c # t) ts = c # foldl join t ts"
proof (induction ts arbitrary: t)
  case Nil
  then show ?case by simp
next
  case (Cons x xs)
  then have "join (c # t) x = c # join t x" by (intro join_Cons) simp
  moreover have "foldl join (c # join t x) xs = c # foldl join (join t x) xs"
    by (rule Cons.IH) (simp add: join_not_Nil)
  ultimately show ?case by simp
qed

lemma split_not_Nil: "split s \<noteq> []"
  by (induction s) (auto split: list.splits)

lemma split_no_slash: "t \<in> set (split s) \<Longrightarrow> CHR ''/'' \<notin> set t"
  by (induction s arbitrary: t) (auto split: list.splits if_splits)

lemma split_empty_head:
  "split s = [] # t # ts \<Longrightarrow> \<exists>cs. s = CHR ''/'' # cs"
  by (cases s) (auto split: list.splits if_splits)

lemma single_slashes_tl: "single_slashes (c # cs) \<Longrightarrow> single_slashes cs"
  by (cases cs) auto

lemma join_tokens_split:
  "single_slashes s \<Longrightarrow> join_tokens (split s) = s"
proof (induction s)
  case Nil
  then show ?case by (simp add: join_tokens_def)
next
  case (Cons c cs)
  obtain t ts where sp: "split cs = t # ts"
    using split_not_Nil [of cs] by (cases "split cs") auto
  have "single_slashes cs" using Cons.prems by (rule single_slashes_tl)
  then have ih: "foldl join t ts = cs"
    using Cons.IH sp by (simp add: join_tokens_def)
  show ?case
  proof (cases "c = CHR ''/''")
    case False
    then have "foldl join (c # t) ts = c # foldl join t ts"
      by (intro foldl_join_Cons) simp
    then show ?thesis using False sp ih by (simp add: join_tokens_def)
  next
    case True
    have "CHR ''/'' \<notin> set t" using split_no_slash [of t cs] sp by simp
    then have first: "join [] t = CHR ''/'' # t"
      by (cases t) (auto simp: join_def remove_suffix_def remove_prefix_def)
    have "t \<noteq> [] \<or> ts = []"
    proof (rule ccontr)
      assume "\<not> (t \<noteq> [] \<or> ts = [])"
      then obtain u us where "split cs = [] # u # us"
        using sp by (cases ts) auto
      then obtain cs' where "cs = CHR ''/'' # cs'"
        using split_empty_head by blast
      then show False using Cons.prems True by simp
    qed
    then have "foldl join (CHR ''/'' # t) ts = CHR ''/'' # foldl join t ts"
      by (intro foldl_join_Cons) auto
    then show ?thesis using True sp ih first by (simp add: join_tokens_def)
  qed
qed

text \<open>
  C8. Round trip, as the code has it: after a successful \<open>attach(p, n)\<close>, with
  nothing done to the namespace in between, \<open>resolve(n)\<close> returns the canonical form
  of \<open>p\<close>, provided that splitting the cleaned name and joining its segments gives the
  cleaned name back (as for every name without two separators side by side,
  \<open>join_tokens_split\<close>), and that canonicalising a canonical directory path with a
  trailing separator gives that path. A file target is returned directly, a directory
  through the directory branch with the empty suffix.
\<close>

theorem attach_resolve_round_trip:
  assumes "attach os paths p n = Inr paths'"
    and "join_tokens (split (remove_suffix n)) = remove_suffix n"
    and "os_realpath os p = Inr rp"
    and "os_isdir os rp \<longrightarrow> os_realpath os (join rp []) = Inr rp"
  shows "resolve os paths' n = RSome rp"
proof -
  have stored: "paths' (remove_suffix n) = Some rp"
    using assms(1,3) by (auto simp: attach_def split: sum.splits if_splits)
  have "resolve os paths' n = resolve_target os rp []"
    unfolding resolve_def
    by (rule resolve_loop_found) (simp_all add: split_not_Nil assms(2) stored)
  also have "\<dots> = RSome rp"
    using assms(4) by (simp add: resolve_target_def startsWith_def)
  finally show ?thesis .
qed

text \<open>
  The sample directory attached as \<open>sandbox/\<close> and resolved under that name.
\<close>

theorem attach_resolve_round_trip_witness:
  "attach sandbox_os Map.empty ''/tmp/x'' ''sandbox/'' = Inr sandbox
   \<and> join_tokens (split (remove_suffix ''sandbox/'')) = remove_suffix ''sandbox/''
   \<and> os_realpath sandbox_os ''/tmp/x'' = Inr ''/tmp/x''
   \<and> os_isdir sandbox_os ''/tmp/x''
   \<and> os_realpath sandbox_os (join ''/tmp/x'' []) = Inr ''/tmp/x''
   \<and> resolve sandbox_os sandbox ''sandbox/'' = RSome ''/tmp/x''"
proof -
  have a: "attach sandbox_os Map.empty ''/tmp/x'' ''sandbox/'' = Inr sandbox"
    by (simp add: attach_def sample_defs remove_suffix_def)
  have j: "join_tokens (split (remove_suffix ''sandbox/'')) = remove_suffix ''sandbox/''"
    by (simp add: path_defs)
  have r: "os_realpath sandbox_os ''/tmp/x'' = Inr ''/tmp/x''"
    by (simp add: sample_defs remove_suffix_def)
  have d: "os_isdir sandbox_os ''/tmp/x''" by (simp add: sample_defs)
  have c: "os_realpath sandbox_os (join ''/tmp/x'' []) = Inr ''/tmp/x''"
    by (simp add: sample_defs path_defs)
  show ?thesis
    using a j r d c attach_resolve_round_trip [OF a j r impI [OF c]] by blast
qed

text \<open>
  Without the proviso on the name the round trip fails: attached as \<open>//a\<close>, the
  directory is stored under \<open>//a\<close>, but \<open>resolve\<close> joins the segments of \<open>//a\<close>
  to \<open>/a\<close>, then to the empty name, finds neither and returns nothing.
\<close>

theorem attach_resolve_doubled_slash:
  "attach sandbox_os Map.empty ''/tmp/x'' ''//a'' = Inr [''//a'' \<mapsto> ''/tmp/x'']
   \<and> os_realpath sandbox_os ''/tmp/x'' = Inr ''/tmp/x''
   \<and> resolve sandbox_os [''//a'' \<mapsto> ''/tmp/x''] ''//a'' = RNone"
  by (simp add: attach_def sandbox_os_def sample_os_def resolve_def resolve_loop.simps
      resolve_target_def path_defs)

section \<open>Properties of the handlers\<close>

text \<open>
  With the descriptor open, \<open>read\<close> answers no bad request.
\<close>

lemma read_fd_no_BadRequest:
  "fst (read_fd os fds p fd offset len jsonp) \<noteq> Returns (BadRequest m)"
  by (simp add: read_fd_def read_then_def Let_def split: sum.splits)

text \<open>
  The steps of \<open>read\<close>: the parameters parsed, then the file opened.
\<close>

lemma read_after_parse:
  "query request ''path'' = Some path \<Longrightarrow> path \<noteq> [] \<Longrightarrow>
   param request ''offset'' = Inr offset \<Longrightarrow> param request ''length'' = Inr len \<Longrightarrow>
   read os fds paths request = read_path os fds paths path offset len (query request ''jsonp'')"
  by (simp add: read_def)

lemma read_path_file:
  "resolve os paths path = RSome resolvedPath \<Longrightarrow> \<not> os_isdir os resolvedPath \<Longrightarrow>
   os_open os resolvedPath = Inr fd \<Longrightarrow>
   read_path os fds paths path offset len jsonp
     = read_fd os (insert fd fds) resolvedPath fd offset len jsonp"
  by (simp add: read_path_def)

text \<open>
  A bad request after parsing does not depend on the offset or the length.
\<close>

lemma read_path_BadRequest_any:
  assumes "fst (read_path os fds paths path offset len jsonp) = Returns (BadRequest m)"
  shows "fst (read_path os fds paths path offset' len' jsonp') = Returns (BadRequest m)"
  using assms read_fd_no_BadRequest
  by (auto simp: read_path_def split: result.splits if_splits sum.splits)

text \<open>
  C2. When \<open>resolve\<close> returns an error, \<open>browse\<close> answers 500 (internal server
  error), while \<open>read\<close> and \<open>download\<close> answer 400 (bad request); \<open>read\<close> has
  opened no file by then.
\<close>

theorem handlers_on_resolve_error:
  assumes "query request ''path'' = Some path" and "path \<noteq> []"
    and "resolve os paths path = RError e"
  shows "status (browse os paths request) = 500
     \<and> outcome_status (fst (read os fds paths request)) = Some 400
     \<and> snd (read os fds paths request) = fds
     \<and> status (download os paths request) = 400"
  using assms
  by (simp add: browse_def read_def read_path_def download_def split: sum.splits)

text \<open>
  The outward link of the sample host, asked for through \<open>browse\<close> and \<open>read\<close>.
\<close>

theorem handlers_on_resolve_error_witness:
  "resolve (sample_os [''/a/b''] [(''/a/b/out'', ''/etc/passwd'')]) [''sandbox'' \<mapsto> ''/a/b'']
     ''sandbox/out'' = RError (quoted ''/a/b/out'' @ '' is inaccessible'')
   \<and> status (browse (sample_os [''/a/b''] [(''/a/b/out'', ''/etc/passwd'')])
        [''sandbox'' \<mapsto> ''/a/b''] (get [(''path'', ''sandbox/out'')])) = 500
   \<and> outcome_status (fst (read (sample_os [''/a/b''] [(''/a/b/out'', ''/etc/passwd'')]) {}
        [''sandbox'' \<mapsto> ''/a/b''] (get [(''path'', ''sandbox/out''), (''offset'', ''0'')])))
       = Some 400"
proof -
  let ?os = "sample_os [''/a/b''] [(''/a/b/out'', ''/etc/passwd'')]"
  let ?ns = "[''sandbox'' \<mapsto> ''/a/b'']"
  have q1: "query (get [(''path'', ''sandbox/out'')]) ''path'' = Some ''sandbox/out''"
    by (simp add: get_def)
  have q2: "query (get [(''path'', ''sandbox/out''), (''offset'', ''0'')]) ''path''
      = Some ''sandbox/out''"
    by (simp add: get_def)
  have ne: "''sandbox/out'' \<noteq> []" by simp
  show ?thesis
    using handlers_on_resolve_error [OF q1 ne sandbox_outward, of "{}"]
      handlers_on_resolve_error [OF q2 ne sandbox_outward, of "{}"] sandbox_outward
    by simp
qed

text \<open>
  The same failed resolution through \<open>read\<close> and \<open>download\<close>: the status is 400,
  not 500.
\<close>

theorem read_download_answer_400:
  "resolve (sample_os [''/a/b''] [(''/a/b/out'', ''/etc/passwd'')]) [''sandbox'' \<mapsto> ''/a/b'']
     ''sandbox/out'' = RError (quoted ''/a/b/out'' @ '' is inaccessible'')
   \<and> outcome_status (fst (read (sample_os [''/a/b''] [(''/a/b/out'', ''/etc/passwd'')]) {}
        [''sandbox'' \<mapsto> ''/a/b''] (get [(''path'', ''sandbox/out'')]))) = Some 400
   \<and> status (download (sample_os [''/a/b''] [(''/a/b/out'', ''/etc/passwd'')])
        [''sandbox'' \<mapsto> ''/a/b''] (get [(''path'', ''sandbox/out'')])) = 400"
  by (simp add: sandbox_outward read_defs download_def get_def)

text \<open>
  C3. Every return path of \<open>read\<close> after a successful \<open>open\<close> is to close the
  descriptor. The path taken when \<open>os::nonblock\<close> fails does not: on the sample host
  with a failing \<open>os::nonblock\<close>, \<open>read\<close> answers 500 and descriptor 3 is still
  open.
\<close>

theorem read_leaks_descriptor:
  "read (sandbox_os \<lparr> os_nonblock := (\<lambda>fd. Inl ''Bad file descriptor'') \<rparr>) {} sandbox
     (get [(''path'', ''sandbox/f.txt''), (''offset'', ''0'')])
   = (Returns (InternalServerError
        ''Failed to set file descriptor nonblocking: Bad file descriptor''), {3})"
proof -
  have "resolve (sandbox_os \<lparr> os_nonblock := (\<lambda>fd. Inl ''Bad file descriptor'') \<rparr>) sandbox
      ''sandbox/f.txt'' = RSome ''/tmp/x/f.txt''"
    by (simp add: resolve_defs sample_defs path_defs)
  then show ?thesis
    by (simp add: read_defs numify_small sample_defs)
qed

text \<open>
  With the descriptor open, \<open>read\<close> either closes it or leaves the set of open
  descriptors as it was; the latter on a failed \<open>os::nonblock\<close>, on the exception of
  the allocation, and on a failed \<open>io::read\<close>.
\<close>

lemma read_fd_closes_or_leaks:
  assumes "read_fd os fds p fd offset len jsonp = (out, fds')"
  shows "fds' = fds - {fd} \<or>
     (fds' = fds \<and> ((\<exists>e. os_nonblock os fd = Inl e) \<or> (\<exists>n. out = Throws n) \<or> (\<exists>e. out = Fails e)))"
  using assms
  by (auto simp: read_fd_def read_then_def Let_def split: if_splits sum.splits)

text \<open>
  C4. On a file that resolves, is no directory, opens and has a size: when the
  \<open>offset\<close> parameter is absent the offset becomes the size, and whenever the offset is
  at or past the size \<open>read\<close> closes the file and answers 200 with the size as
  \<open>offset\<close> and empty \<open>data\<close>.
\<close>

theorem read_offset_past_end:
  assumes "query request ''path'' = Some path" and "path \<noteq> []"
    and "param request ''offset'' = Inr offset" and "param request ''length'' = Inr len"
    and "resolve os paths path = RSome resolvedPath" and "\<not> os_isdir os resolvedPath"
    and "os_open os resolvedPath = Inr fd"
    and "os_lseek_end os fd = sz" and "sz \<noteq> - 1"
    and "query request ''offset'' = None \<or> sint sz \<le> sint offset"
  shows "read os fds paths request
           = (Returns (OK (JRead sz []) (query request ''jsonp'')), insert fd fds - {fd})"
proof -
  have absent: "query request ''offset'' = None \<Longrightarrow> offset = - 1"
    using assms(3) by (simp add: param_def)
  have "sint sz \<le> sint (if offset = - 1 then sz else offset)"
    using assms(10) absent by auto
  then have "read_fd os (insert fd fds) resolvedPath fd offset len (query request ''jsonp'')
      = (Returns (OK (JRead sz []) (query request ''jsonp'')), insert fd fds - {fd})"
    using assms(8,9) by (simp add: read_fd_def Let_def)
  then show ?thesis
    using assms(1-7) by (simp add: read_after_parse read_path_file)
qed

text \<open>
  The file of the sample host, read without an offset and with offset 20.
\<close>

theorem read_offset_past_end_witness:
  "query (get [(''path'', ''sandbox/f.txt'')]) ''offset'' = None
   \<and> read sandbox_os {} sandbox (get [(''path'', ''sandbox/f.txt'')])
       = (Returns (OK (JRead 20 []) None), {})
   \<and> sint (20 :: 64 word) \<le> sint (20 :: 64 word)
   \<and> read sandbox_os {} sandbox (get [(''path'', ''sandbox/f.txt''), (''offset'', ''20'')])
       = (Returns (OK (JRead 20 []) None), {})"
proof -
  let ?r0 = "get [(''path'', ''sandbox/f.txt'')]"
  let ?r1 = "get [(''path'', ''sandbox/f.txt''), (''offset'', ''20'')]"
  have ne: "''sandbox/f.txt'' \<noteq> []" by simp
  have nd: "\<not> os_isdir sandbox_os ''/tmp/x/f.txt''" by (simp add: sample_defs)
  have op: "os_open sandbox_os ''/tmp/x/f.txt'' = Inr 3" by (simp add: sample_defs)
  have sz: "os_lseek_end sandbox_os 3 = 20" by (simp add: sample_defs)
  have s1: "(20 :: 64 word) \<noteq> - 1" by simp
  have p0: "query ?r0 ''path'' = Some ''sandbox/f.txt''" by (simp add: get_def)
  have o0: "param ?r0 ''offset'' = Inr (- 1)" by (simp add: get_def param_def)
  have l0: "param ?r0 ''length'' = Inr (- 1)" by (simp add: get_def param_def)
  have a0: "query ?r0 ''offset'' = None" by (simp add: get_def)
  have p1: "query ?r1 ''path'' = Some ''sandbox/f.txt''" by (simp add: get_def)
  have o1: "param ?r1 ''offset'' = Inr 20" by (simp add: get_def param_def numify_small)
  have l1: "param ?r1 ''length'' = Inr (- 1)" by (simp add: get_def param_def)
  have ge: "sint (20 :: 64 word) \<le> sint (20 :: 64 word)" by simp
  have r0: "read sandbox_os {} sandbox ?r0 = (Returns (OK (JRead 20 []) None), {})"
    using read_offset_past_end [OF p0 ne o0 l0 sandbox_file nd op sz s1 disjI1 [OF a0], of "{}"]
    by (simp add: get_def)
  have r1: "read sandbox_os {} sandbox ?r1 = (Returns (OK (JRead 20 []) None), {})"
    using read_offset_past_end [OF p1 ne o1 l1 sandbox_file nd op sz s1 disjI2 [OF ge], of "{}"]
    by (simp add: get_def)
  show ?thesis by (intro conjI a0 r0 ge r1)
qed

text \<open>
  The cap on the length, and the pages as a number.
\<close>

lemma smin_le: "sint (smin a b) \<le> sint b"
  by (simp add: smin_def)

lemma smin_negative: "sint a < 0 \<Longrightarrow> sint (smin a b) < 0"
  by (simp add: smin_def)

lemma unat_nonnegative:
  assumes "0 \<le> sint (w :: 64 word)"
  shows "int (unat w) = sint w"
proof -
  have "sint w < 2 ^ 64" using sint_lt [of w] by simp
  then have "uint w = sint w"
    using assms uint_sint [of w] by (simp add: take_bit_int_eq_self)
  then show ?thesis by simp
qed

lemma sint_pages:
  "0 < sint (p :: 64 word) \<Longrightarrow> sint p < 2 ^ 59 \<Longrightarrow> sint (p * 16) = 16 * sint p"
  by (simp add: sint_word_ariths signed_take_bit_int_eq_self)

lemma read_fd_data_bound:
  assumes "read_fd os fds p fd offset0 length0 j = (Returns (OK (JRead off data) jsonp), fds')"
    and "0 \<le> sint (page_size os * 16)"
  shows "int (length data) \<le> sint (page_size os * 16)"
proof (cases "data = []")
  case True
  then show ?thesis using assms(2) by simp
next
  case False
  define sz where "sz = os_lseek_end os fd"
  define offset where "offset = (if offset0 = - 1 then sz else offset0)"
  define len where "len = smin (if length0 = - 1 then sz - offset else length0) (page_size os * 16)"
  from assms(1) False obtain bytes where d: "data = take (unat len) bytes" and nn: "0 \<le> sint len"
    by (auto simp: read_fd_def read_then_def Let_def sz_def offset_def len_def
        split: if_splits sum.splits)
  have "length data \<le> unat len" using d by simp
  then have "int (length data) \<le> int (unat len)" by (simp only: of_nat_le_iff)
  also have "\<dots> = sint len" using nn by (rule unat_nonnegative)
  also have "\<dots> \<le> sint (page_size os * 16)" by (simp add: len_def smin_le)
  finally show ?thesis .
qed

lemma read_reaches_read_fd:
  "read os fds paths request = (Returns (OK j c), fds') \<Longrightarrow>
   \<exists>fds0 p fd offset0 length0 jsonp.
     read_fd os fds0 p fd offset0 length0 jsonp = (Returns (OK j c), fds')"
  by (auto simp: read_def read_path_def split: option.splits if_splits sum.splits result.splits)
    blast

text \<open>
  C5. Whatever length is asked for or derived, the \<open>data\<close> of a response of
  \<open>read\<close> has at most 16 times the page size many bytes (for a page size that is
  positive and below \<open>2 ^ 59\<close>, so that the product does not wrap around).
\<close>

theorem read_length_capped:
  assumes "0 < sint (page_size os)" and "sint (page_size os) < 2 ^ 59"
    and "read os fds paths request = (Returns (OK (JRead off data) jsonp), fds')"
  shows "int (length data) \<le> 16 * sint (page_size os)"
proof -
  have pages: "sint (page_size os * 16) = 16 * sint (page_size os)"
    using assms(1,2) by (rule sint_pages)
  from assms(3) obtain fds0 p fd offset0 length0 j
    where "read_fd os fds0 p fd offset0 length0 j = (Returns (OK (JRead off data) jsonp), fds')"
    using read_reaches_read_fd by blast
  then have "int (length data) \<le> sint (page_size os * 16)"
    using assms(1) pages by (intro read_fd_data_bound) simp_all
  then show ?thesis using pages by simp
qed

text \<open>
  With a page of one byte the cap is 16: of the 18 bytes asked for, 16 are returned.
\<close>

theorem read_length_capped_witness:
  "0 < sint (page_size (sandbox_os \<lparr> page_size := 1 \<rparr>))
   \<and> sint (page_size (sandbox_os \<lparr> page_size := 1 \<rparr>)) < 2 ^ 59
   \<and> read (sandbox_os \<lparr> page_size := 1 \<rparr>) {} sandbox
        (get [(''path'', ''sandbox/f.txt''), (''offset'', ''0''), (''length'', ''18'')])
       = (Returns (OK (JRead 0 ''0123456789abcdef'') None), {})
   \<and> int (length ''0123456789abcdef'') \<le> 16 * sint (page_size (sandbox_os \<lparr> page_size := 1 \<rparr>))"
proof -
  let ?os = "sandbox_os \<lparr> page_size := 1 \<rparr>"
  let ?r = "get [(''path'', ''sandbox/f.txt''), (''offset'', ''0''), (''length'', ''18'')]"
  have p: "0 < sint (page_size ?os)" by simp
  have q: "sint (page_size ?os) < 2 ^ 59" by simp
  have res: "resolve ?os sandbox ''sandbox/f.txt'' = RSome ''/tmp/x/f.txt''"
    by (simp add: resolve_defs sample_defs path_defs)
  have rd: "read ?os {} sandbox ?r = (Returns (OK (JRead 0 ''0123456789abcdef'') None), {})"
    using res by (simp add: read_defs numify_small sample_defs)
  show ?thesis
    using p q rd read_length_capped [OF p q rd] by blast
qed

text \<open>
  A minus sign, then digits, parses to the negative number.
\<close>

lemma digits_value_nonnegative:
  "list_all is_digit ds \<Longrightarrow> 0 \<le> n \<Longrightarrow>
   0 \<le> foldl (\<lambda>n c. 10 * n + ((of_char c :: int) - 48)) n ds"
proof (induction ds arbitrary: n)
  case Nil
  then show ?case by simp
next
  case (Cons c cs)
  then have "0 \<le> 10 * n + ((of_char c :: int) - 48)"
    by (simp add: is_digit_def)
  then show ?case using Cons by simp
qed

lemma numify_negative:
  assumes "ds \<noteq> []" and "list_all is_digit ds" and "digits_value ds \<le> 2 ^ 63"
  shows "numify (CHR ''-'' # ds) = Inr (word_of_int (- digits_value ds))"
proof -
  have "0 \<le> digits_value ds"
    unfolding digits_value_def using assms(2) by (rule digits_value_nonnegative) simp
  then show ?thesis
    using assms by (simp add: numify_def Let_def)
qed

text \<open>
  The sentinel inside \<open>read\<close>, with the descriptor open: an offset of \<open>-1\<close> is
  replaced by the size, a length of \<open>-1\<close> by what is left from the offset to the size.
\<close>

lemma read_fd_offset_sentinel:
  "read_fd os fds p fd (- 1) len jsonp = read_fd os fds p fd (os_lseek_end os fd) len jsonp"
  by (simp add: read_fd_def Let_def)

lemma read_fd_length_sentinel:
  "read_fd os fds p fd offset (- 1) jsonp
     = read_fd os fds p fd offset
         (os_lseek_end os fd - (if offset = - 1 then os_lseek_end os fd else offset)) jsonp"
  by (simp add: read_fd_def Let_def)

lemma read_fd_offset_becomes_size:
  "os_lseek_end os fd \<noteq> - 1 \<Longrightarrow>
   read_fd os fds p fd (- 1) len jsonp
     = (Returns (OK (JRead (os_lseek_end os fd) []) jsonp), fds - {fd})"
  by (simp add: read_fd_def Let_def)

lemma read_fd_length_becomes_rest:
  assumes "os_lseek_end os fd \<noteq> - 1" and "offset \<noteq> - 1"
    and "sint offset < sint (os_lseek_end os fd)"
    and "os_lseek_set os fd offset \<noteq> - 1" and "os_nonblock os fd = Inr ()"
    and "0 \<le> sint (smin (os_lseek_end os fd - offset) (page_size os * 16))"
    and "io_read os fd offset = Inr bytes"
  shows "read_fd os fds p fd offset (- 1) jsonp
     = (Returns (OK (JRead offset
          (take (unat (smin (os_lseek_end os fd - offset) (page_size os * 16))) bytes)) jsonp),
        fds - {fd})"
  using assms by (simp add: read_fd_def read_then_def Let_def)

text \<open>
  A bad request after parsing has one of two causes: the path does not resolve, or
  it resolves to a directory.
\<close>

lemma read_path_BadRequest_cause:
  assumes "fst (read_path os fds paths path offset len jsonp) = Returns (BadRequest m)"
  shows "(\<exists>e. resolve os paths path = RError e \<and> m = e @ ''.'' @ [CHR 0x0A])
     \<or> (\<exists>rp. resolve os paths path = RSome rp \<and> os_isdir os rp
            \<and> m = ''Cannot read a directory.'' @ [CHR 0x0A])"
  using assms read_fd_no_BadRequest
  by (auto simp: read_path_def split: result.splits if_splits sum.splits)

text \<open>
  C9. The value \<open>-1\<close> doubles as "absent". An \<open>offset\<close> parameter that parses to
  \<open>-1\<close> gives the same run as no \<open>offset\<close> parameter, and the offset of that run is
  the size of the file: the answer is \<open>{offset: size, data: ""}\<close>. A \<open>length\<close>
  parameter of \<open>-1\<close> gives the same run as no \<open>length\<close> parameter, and the length
  of that run is the size minus the offset (then capped). Negative values parse to the
  negative number, and no branch rejects them: a request whose parameters parse gets a
  bad request only when its path does not resolve or is a directory, whatever the offset
  and the length, and never on a file.
\<close>

theorem minus_one_is_absent:
  "(numify s = Inr (- 1) \<longrightarrow>
      read os fds paths (request \<lparr> query := (query request)(''offset'' \<mapsto> s) \<rparr>)
        = read os fds paths (request \<lparr> query := (query request)(''offset'' := None) \<rparr>)
      \<and> read os fds paths (request \<lparr> query := (query request)(''length'' \<mapsto> s) \<rparr>)
        = read os fds paths (request \<lparr> query := (query request)(''length'' := None) \<rparr>))
   \<and> (ds \<noteq> [] \<and> list_all is_digit ds \<and> digits_value ds \<le> 2 ^ 63 \<longrightarrow>
      numify (CHR ''-'' # ds) = Inr (word_of_int (- digits_value ds))
      \<and> sint (word_of_int (- digits_value ds) :: 64 word) = - digits_value ds)
   \<and> (numify ''-1'' = Inr (- 1) \<and> numify ''-5'' = Inr (- 5)
      \<and> numify ''-9223372036854775808'' = Inr (- 9223372036854775808))
   \<and> (query request ''path'' = Some path \<and> path \<noteq> [] \<and>
      param request ''offset'' = Inr offset \<and> param request ''length'' = Inr len \<longrightarrow>
      read os fds paths request
        = read_path os fds paths path offset len (query request ''jsonp'')
      \<and> (\<forall>m. fst (read os fds paths request) = Returns (BadRequest m) \<longrightarrow>
           (\<exists>e. resolve os paths path = RError e \<and> m = e @ ''.'' @ [CHR 0x0A])
           \<or> (\<exists>dir. resolve os paths path = RSome dir \<and> os_isdir os dir
                  \<and> m = ''Cannot read a directory.'' @ [CHR 0x0A]))
      \<and> (\<forall>m. fst (read os fds paths request) = Returns (BadRequest m) \<longrightarrow>
           (\<forall>offset' len'. fst (read_path os fds paths path offset' len' (query request ''jsonp''))
              = Returns (BadRequest m)))
      \<and> (resolve os paths path = RSome rp \<and> \<not> os_isdir os rp \<and> os_open os rp = Inr fd \<and>
         os_lseek_end os fd = sz \<longrightarrow>
           (\<forall>m. fst (read os fds paths request) \<noteq> Returns (BadRequest m))
         \<and> (offset = - 1 \<longrightarrow>
              read os fds paths request
                = read_fd os (insert fd fds) rp fd sz len (query request ''jsonp''))
         \<and> (offset = - 1 \<and> sz \<noteq> - 1 \<longrightarrow>
              read os fds paths request
                = (Returns (OK (JRead sz []) (query request ''jsonp'')), insert fd fds - {fd}))
         \<and> (len = - 1 \<longrightarrow>
              read os fds paths request
                = read_fd os (insert fd fds) rp fd offset
                    (sz - (if offset = - 1 then sz else offset)) (query request ''jsonp''))
         \<and> (len = - 1 \<and> sz \<noteq> - 1 \<and> offset \<noteq> - 1 \<and> sint offset < sint sz \<and>
            os_lseek_set os fd offset \<noteq> - 1 \<and> os_nonblock os fd = Inr () \<and>
            0 \<le> sint (smin (sz - offset) (page_size os * 16)) \<and>
            io_read os fd offset = Inr bytes \<longrightarrow>
              read os fds paths request
                = (Returns (OK (JRead offset
                     (take (unat (smin (sz - offset) (page_size os * 16))) bytes))
                     (query request ''jsonp'')), insert fd fds - {fd}))))"
  (is "?A \<and> ?B \<and> ?N \<and> (?P \<longrightarrow> ?C1 \<and> ?C2 \<and> ?C3 \<and> (?Q \<longrightarrow> ?D0 \<and> ?D1 \<and> ?D2 \<and> ?D3 \<and> ?D4))")
proof (intro conjI)
  show ?A
    by (auto simp: read_def param_def split: option.splits sum.splits)
  show ?B
  proof (intro impI)
    assume b: "ds \<noteq> [] \<and> list_all is_digit ds \<and> digits_value ds \<le> 2 ^ 63"
    then have "0 \<le> digits_value ds"
      unfolding digits_value_def by (intro digits_value_nonnegative) simp_all
    then have "sint (word_of_int (- digits_value ds) :: 64 word) = - digits_value ds"
      unfolding sint_sbintrunc' using b by (simp add: signed_take_bit_int_eq_self)
    then show "numify (CHR ''-'' # ds) = Inr (word_of_int (- digits_value ds))
        \<and> sint (word_of_int (- digits_value ds) :: 64 word) = - digits_value ds"
      using b by (simp add: numify_negative)
  qed
  show "numify ''-1'' = Inr (- 1)"
    by (simp add: numify_def digits_value_def is_digit_def)
  show "numify ''-5'' = Inr (- 5)"
    by (simp add: numify_def digits_value_def is_digit_def)
  show "numify ''-9223372036854775808'' = Inr (- 9223372036854775808)"
    by (simp add: numify_def digits_value_def is_digit_def)
  show "?P \<longrightarrow> ?C1 \<and> ?C2 \<and> ?C3 \<and> (?Q \<longrightarrow> ?D0 \<and> ?D1 \<and> ?D2 \<and> ?D3 \<and> ?D4)"
  proof (intro impI)
    assume p: ?P
    then have c1: ?C1 by (simp add: read_after_parse)
    have c2: ?C2 unfolding c1 using read_path_BadRequest_cause by blast
    have c3: ?C3 unfolding c1 using read_path_BadRequest_any by blast
    have d: "?Q \<longrightarrow> ?D0 \<and> ?D1 \<and> ?D2 \<and> ?D3 \<and> ?D4"
    proof (intro impI)
      assume q: ?Q
      then have opened: "read os fds paths request
          = read_fd os (insert fd fds) rp fd offset len (query request ''jsonp'')"
        using c1 by (simp add: read_path_file)
      have sz: "os_lseek_end os fd = sz" using q by simp
      have d0: ?D0 using c2 q by auto
      have d1: ?D1 unfolding opened using read_fd_offset_sentinel sz by metis
      have d2: ?D2 unfolding opened using read_fd_offset_becomes_size sz by metis
      have d3: ?D3 unfolding opened using read_fd_length_sentinel sz by metis
      have d4: ?D4 unfolding opened using read_fd_length_becomes_rest sz by metis
      show "?D0 \<and> ?D1 \<and> ?D2 \<and> ?D3 \<and> ?D4" by (intro conjI d0 d1 d2 d3 d4)
    qed
    show "?C1 \<and> ?C2 \<and> ?C3 \<and> (?Q \<longrightarrow> ?D0 \<and> ?D1 \<and> ?D2 \<and> ?D3 \<and> ?D4)"
      by (intro conjI c1 c2 c3 d)
  qed
qed

text \<open>
  The sample file asked for with offset \<open>-1\<close>, with offset 3 and length \<open>-1\<close>,
  and with a negative offset and length; the sample directory asked for with a negative
  offset and length.
\<close>

theorem minus_one_is_absent_witness:
  "numify ''-1'' = Inr (- 1)
   \<and> param (get [(''path'', ''sandbox/f.txt''), (''offset'', ''-1'')]) ''offset'' = Inr (- 1)
   \<and> read sandbox_os {} sandbox (get [(''path'', ''sandbox/f.txt''), (''offset'', ''-1'')])
       = (Returns (OK (JRead 20 []) None), {})
   \<and> read sandbox_os {} sandbox
        (get [(''path'', ''sandbox/f.txt'')]
           \<lparr> query := (query (get [(''path'', ''sandbox/f.txt'')]))(''offset'' \<mapsto> ''-1'') \<rparr>)
       = read sandbox_os {} sandbox
        (get [(''path'', ''sandbox/f.txt'')]
           \<lparr> query := (query (get [(''path'', ''sandbox/f.txt'')]))(''offset'' := None) \<rparr>)
   \<and> param (get [(''path'', ''sandbox/f.txt''), (''offset'', ''3''), (''length'', ''-1'')])
        ''length'' = Inr (- 1)
   \<and> read sandbox_os {} sandbox
        (get [(''path'', ''sandbox/f.txt''), (''offset'', ''3''), (''length'', ''-1'')])
       = (Returns (OK (JRead 3 ''3456789abcdefghij'') None), {})
   \<and> numify ''-7'' = Inr (- 7)
   \<and> param (get [(''path'', ''sandbox''), (''offset'', ''-7''), (''length'', ''-5'')]) ''offset''
        = Inr (- 7)
   \<and> fst (read sandbox_os {} sandbox
        (get [(''path'', ''sandbox''), (''offset'', ''-7''), (''length'', ''-5'')]))
       = Returns (BadRequest (''Cannot read a directory.'' @ [CHR 0x0A]))
   \<and> (\<forall>m. fst (read sandbox_os {} sandbox
        (get [(''path'', ''sandbox/f.txt''), (''offset'', ''-7''), (''length'', ''-5'')]))
       \<noteq> Returns (BadRequest m))"
proof -
  let ?r1 = "get [(''path'', ''sandbox/f.txt''), (''offset'', ''-1'')]"
  let ?r2 = "get [(''path'', ''sandbox/f.txt''), (''offset'', ''3''), (''length'', ''-1'')]"
  let ?r3 = "get [(''path'', ''sandbox''), (''offset'', ''-7''), (''length'', ''-5'')]"
  let ?r4 = "get [(''path'', ''sandbox/f.txt''), (''offset'', ''-7''), (''length'', ''-5'')]"
  have n1: "numify ''-1'' = Inr (- 1)" by (simp add: numify_small)
  have d7: "''7'' \<noteq> [] \<and> list_all is_digit ''7'' \<and> digits_value ''7'' \<le> 2 ^ 63"
    by (simp add: is_digit_def digits_value_def)
  have p1: "query ?r1 ''path'' = Some ''sandbox/f.txt'' \<and> ''sandbox/f.txt'' \<noteq> [] \<and>
      param ?r1 ''offset'' = Inr (- 1) \<and> param ?r1 ''length'' = Inr (- 1)"
    by (simp add: get_def param_def numify_small)
  have p2: "query ?r2 ''path'' = Some ''sandbox/f.txt'' \<and> ''sandbox/f.txt'' \<noteq> [] \<and>
      param ?r2 ''offset'' = Inr 3 \<and> param ?r2 ''length'' = Inr (- 1)"
    by (simp add: get_def param_def numify_small)
  have p3: "query ?r3 ''path'' = Some ''sandbox'' \<and> ''sandbox'' \<noteq> [] \<and>
      param ?r3 ''offset'' = Inr (- 7) \<and> param ?r3 ''length'' = Inr (- 5)"
    by (simp add: get_def param_def numify_small)
  have p4: "query ?r4 ''path'' = Some ''sandbox/f.txt'' \<and> ''sandbox/f.txt'' \<noteq> [] \<and>
      param ?r4 ''offset'' = Inr (- 7) \<and> param ?r4 ''length'' = Inr (- 5)"
    by (simp add: get_def param_def numify_small)
  have q: "resolve sandbox_os sandbox ''sandbox/f.txt'' = RSome ''/tmp/x/f.txt'' \<and>
      \<not> os_isdir sandbox_os ''/tmp/x/f.txt'' \<and> os_open sandbox_os ''/tmp/x/f.txt'' = Inr 3 \<and>
      os_lseek_end sandbox_os 3 = 20"
    using sandbox_file by (simp add: sample_defs)
  have j1: "query ?r1 ''jsonp'' = None" by (simp add: get_def)
  have j2: "query ?r2 ''jsonp'' = None" by (simp add: get_def)
  have fds: "insert (3 :: int) {} - {3} = {}" by simp
  note t = minus_one_is_absent [where os = sandbox_os and fds = "{}" and paths = sandbox]
  note a = t [where s = "''-1''" and request = "get [(''path'', ''sandbox/f.txt'')]",
      THEN conjunct1, THEN mp, OF n1, THEN conjunct1]
  have b: "numify ''-7'' = Inr (- 7)"
    using t [where ds = "''7''", THEN conjunct2, THEN conjunct1, THEN mp, OF d7, THEN conjunct1]
    by (simp add: digits_value_def)
  note c1 = t [where request = ?r1, THEN conjunct2, THEN conjunct2, THEN conjunct2, THEN mp,
      OF p1]
  note d1 = c1 [THEN conjunct2, THEN conjunct2, THEN conjunct2, THEN mp, OF q]
  have e1: "(- 1 :: 64 word) = - 1 \<and> (20 :: 64 word) \<noteq> - 1" by simp
  have r1: "read sandbox_os {} sandbox ?r1 = (Returns (OK (JRead 20 []) None), {})"
    using d1 [THEN conjunct2, THEN conjunct2, THEN conjunct1, THEN mp, OF e1]
    by (simp only: j1 fds)
  note c2 = t [where request = ?r2, THEN conjunct2, THEN conjunct2, THEN conjunct2, THEN mp,
      OF p2]
  note d2 = c2 [THEN conjunct2, THEN conjunct2, THEN conjunct2, THEN mp, OF q]
  have e2: "(- 1 :: 64 word) = - 1 \<and> (20 :: 64 word) \<noteq> - 1 \<and> (3 :: 64 word) \<noteq> - 1 \<and>
      sint (3 :: 64 word) < sint (20 :: 64 word) \<and>
      os_lseek_set sandbox_os 3 3 \<noteq> - 1 \<and> os_nonblock sandbox_os 3 = Inr () \<and>
      0 \<le> sint (smin (20 - 3) (page_size sandbox_os * 16)) \<and>
      io_read sandbox_os 3 3 = Inr ''3456789abcdefghij''"
    by (simp add: sample_defs smin_def)
  have tk: "take (unat (smin (20 - 3) (page_size sandbox_os * 16))) ''3456789abcdefghij''
      = ''3456789abcdefghij''"
    by (simp add: sample_defs smin_def)
  have r2: "read sandbox_os {} sandbox ?r2
      = (Returns (OK (JRead 3 ''3456789abcdefghij'') None), {})"
    using d2 [THEN conjunct2, THEN conjunct2, THEN conjunct2, THEN conjunct2, THEN mp, OF e2]
    by (simp only: j2 fds tk)
  note c3 = t [where request = ?r3, THEN conjunct2, THEN conjunct2, THEN conjunct2, THEN mp,
      OF p3]
  have rd: "read_path sandbox_os {} sandbox ''sandbox'' (- 7) (- 5) (query ?r3 ''jsonp'')
      = (Returns (BadRequest (''Cannot read a directory.'' @ [CHR 0x0A])), {})"
    using sandbox_dir by (simp add: read_path_def sample_defs)
  have r3: "fst (read sandbox_os {} sandbox ?r3)
      = Returns (BadRequest (''Cannot read a directory.'' @ [CHR 0x0A]))"
    using c3 [THEN conjunct1] rd by simp
  note c4 = t [where request = ?r4, THEN conjunct2, THEN conjunct2, THEN conjunct2, THEN mp,
      OF p4]
  note r4 = c4 [THEN conjunct2, THEN conjunct2, THEN conjunct2, THEN mp, OF q, THEN conjunct1]
  from p1 have o1: "param ?r1 ''offset'' = Inr (- 1)" by blast
  from p2 have l2: "param ?r2 ''length'' = Inr (- 1)" by blast
  from p3 have o3: "param ?r3 ''offset'' = Inr (- 7)" by blast
  show ?thesis by (intro conjI n1 o1 r1 a l2 r2 b o3 r3 r4)
qed

text \<open>
  C10. A length below \<open>-1\<close> passes the cap and every branch of \<open>read\<close>: with an
  offset before the end of the file, and \<open>lseek\<close> and \<open>os::nonblock\<close> succeeding,
  the capped length is still negative and the handler reaches \<open>new char[length]\<close> with
  it. The allocation throws: \<open>io::read\<close> is not called, no response is built and the
  descriptor stays open.
\<close>

theorem negative_length_reaches_allocation:
  assumes "query request ''path'' = Some path" and "path \<noteq> []"
    and "param request ''offset'' = Inr offset" and "param request ''length'' = Inr len"
    and "sint len < - 1"
    and "resolve os paths path = RSome resolvedPath" and "\<not> os_isdir os resolvedPath"
    and "os_open os resolvedPath = Inr fd"
    and "os_lseek_end os fd = sz" and "sz \<noteq> - 1"
    and "offset \<noteq> - 1" and "sint offset < sint sz"
    and "os_lseek_set os fd offset \<noteq> - 1" and "os_nonblock os fd = Inr ()"
  shows "sint (smin len (page_size os * 16)) < 0
     \<and> read os fds paths request = (Throws (smin len (page_size os * 16)), insert fd fds)"
proof -
  have neg: "sint (smin len (page_size os * 16)) < 0"
    using assms(5) by (intro smin_negative) simp
  have ne: "len \<noteq> - 1" using assms(5) by auto
  have "read_fd os (insert fd fds) resolvedPath fd offset len (query request ''jsonp'')
      = (Throws (smin len (page_size os * 16)), insert fd fds)"
    using assms(9-14) neg ne by (simp add: read_fd_def Let_def)
  then show ?thesis
    using assms(1-8) neg by (simp add: read_after_parse read_path_file)
qed

text \<open>
  The sample file asked for with offset 3 and length \<open>-2\<close>.
\<close>

theorem negative_length_reaches_allocation_witness:
  "param (get [(''path'', ''sandbox/f.txt''), (''offset'', ''3''), (''length'', ''-2'')]) ''length''
     = Inr (- 2)
   \<and> sint (- 2 :: 64 word) < - 1
   \<and> sint (3 :: 64 word) < sint (20 :: 64 word)
   \<and> read sandbox_os {} sandbox
        (get [(''path'', ''sandbox/f.txt''), (''offset'', ''3''), (''length'', ''-2'')])
       = (Throws (- 2), {3})"
proof -
  let ?r = "get [(''path'', ''sandbox/f.txt''), (''offset'', ''3''), (''length'', ''-2'')]"
  have pa: "query ?r ''path'' = Some ''sandbox/f.txt''" by (simp add: get_def)
  have ne: "''sandbox/f.txt'' \<noteq> []" by simp
  have po: "param ?r ''offset'' = Inr 3" by (simp add: get_def param_def numify_small)
  have pl: "param ?r ''length'' = Inr (- 2)" by (simp add: get_def param_def numify_small)
  have ng: "sint (- 2 :: 64 word) < - 1" by simp
  have nd: "\<not> os_isdir sandbox_os ''/tmp/x/f.txt''" by (simp add: sample_defs)
  have op: "os_open sandbox_os ''/tmp/x/f.txt'' = Inr 3" by (simp add: sample_defs)
  have sz: "os_lseek_end sandbox_os 3 = 20" by (simp add: sample_defs)
  have s1: "(20 :: 64 word) \<noteq> - 1" by simp
  have o1: "(3 :: 64 word) \<noteq> - 1" by simp
  have lt: "sint (3 :: 64 word) < sint (20 :: 64 word)" by simp
  have sk: "os_lseek_set sandbox_os 3 3 \<noteq> - 1" by (simp add: sample_defs)
  have nb: "os_nonblock sandbox_os 3 = Inr ()" by (simp add: sample_defs)
  have sm: "smin (- 2) (page_size sandbox_os * 16) = - 2"
    by (simp add: smin_def sample_defs)
  have "read sandbox_os {} sandbox ?r = (Throws (- 2), {3})"
    using negative_length_reaches_allocation
      [OF pa ne po pl ng sandbox_file nd op sz s1 o1 lt sk nb, of "{}"]
    by (simp add: sm)
  then show ?thesis using pl ng lt by blast
qed

text \<open>
  The sample file asked for with offset 0 and length \<open>-5\<close>: the handler ends in the
  exception of the allocation and no read is issued.
\<close>

theorem negative_length_not_read:
  "read sandbox_os {} sandbox
     (get [(''path'', ''sandbox/f.txt''), (''offset'', ''0''), (''length'', ''-5'')])
   = (Throws (- 5), {3})"
  using sandbox_file by (simp add: read_defs numify_small sample_defs)

end
